theory Spec2Isabelle
  imports Complex_Main "HOL-Library.AList"
begin

section \<open>Data model\<close>

text \<open>
  The price tracker of \<^verbatim>\<open>src/src/App.jsx\<close>: the class \<^verbatim>\<open>CryptoService\<close> (archive
  loader, remote fetcher, reconciliation, aggregator) and the class \<^verbatim>\<open>BTCDatabase\<close>
  (the IndexedDB store).

  Numbers. Timestamps are epoch milliseconds and are modelled as \<open>int\<close>. The prices and
  the volume are JavaScript numbers (binary64): their type is the parameter \<open>'n\<close>, with
  a linear order for \<^verbatim>\<open>Math.max\<close> and \<^verbatim>\<open>Math.min\<close>, an addition \<open>+\<close> for \<^verbatim>\<open>+=\<close> and a
  zero. Nothing is assumed of the addition (a binary64 sum is rounded, and is neither
  associative nor exact), so what is proved holds for the sums that the program computes.
  \<^verbatim>\<open>NaN\<close> is modelled only where the source tests for it (the timestamp column of the
  archive); the other numbers are not \<^verbatim>\<open>NaN\<close>.

  A daily record is the object literal built at lines 188-195 and 242-249.
  The field \<^verbatim>\<open>open\<close> is called \<open>open_price\<close>, since \<open>open\<close> is a constant of HOL.
\<close>

record 'n daily_record =
  timestamp :: int
  open_price :: 'n
  high :: 'n
  low :: 'n
  close :: 'n
  volume :: 'n

text \<open>The interval types of \<^verbatim>\<open>TIME_RANGES\<close> (lines 6-14).\<close>

datatype interval = Hour | Day | Week | Month

section \<open>The Date object\<close>

text \<open>
  The source reads the calendar through the host's \<^verbatim>\<open>Date\<close> object, in local time. The
  local time zone is a parameter \<open>tz\<close>: the offset of local time from UTC in
  milliseconds, constant over time (a zone with daylight-saving transitions is outside
  this model). The calendar is the proleptic Gregorian one, with the definitions of the
  ECMAScript specification (Date objects, "Year Number" and "Month Number"); days are
  counted from 1970-01-01. The time values are those of valid dates (at most 8.64e15
  milliseconds from the epoch).
\<close>

definition msPerDay :: int where
  "msPerDay = 86400000"

definition msPerHour :: int where
  "msPerHour = 3600000"

definition LocalTime :: "int \<Rightarrow> int \<Rightarrow> int" where
  "LocalTime tz t = t + tz"

definition UTC :: "int \<Rightarrow> int \<Rightarrow> int" where
  "UTC tz t = t - tz"

text \<open>
  ECMAScript's \<^verbatim>\<open>DayFromYear\<close>: the day number of the first day of year \<open>y\<close>.
\<close>

definition DayFromYear :: "int \<Rightarrow> int" where
  "DayFromYear y =
     365 * (y - 1970) + (y - 1969) div 4 - (y - 1901) div 100 + (y - 1601) div 400"

text \<open>
  ECMAScript's \<^verbatim>\<open>YearFromTime\<close>, on day numbers: the largest year \<open>y\<close> with
  \<open>DayFromYear y \<le> d\<close> (lemma \<open>YearFromDay_correct\<close>). It is computed from an estimate
  that is wrong by one year at most.
\<close>

definition YearFromDay :: "int \<Rightarrow> int" where
  "YearFromDay d =
     (let y = 1970 + (400 * d) div 146097
      in if DayFromYear (y + 1) \<le> d then y + 1
         else if DayFromYear y \<le> d then y
         else y - 1)"

text \<open>ECMAScript's \<^verbatim>\<open>InLeapYear\<close>: 1 in a leap year, else 0.\<close>

definition InLeapYear :: "int \<Rightarrow> int" where
  "InLeapYear y = (if (y mod 4 = 0 \<and> y mod 100 \<noteq> 0) \<or> y mod 400 = 0 then 1 else 0)"

definition DayWithinYear :: "int \<Rightarrow> int" where
  "DayWithinYear d = d - DayFromYear (YearFromDay d)"

text \<open>
  The day within the year on which month \<open>m\<close> (0 to 11) starts, and ECMAScript's tables
  \<^verbatim>\<open>MonthFromTime\<close> and \<^verbatim>\<open>DateFromTime\<close>, on day numbers.
\<close>

definition MonthStart :: "int \<Rightarrow> int \<Rightarrow> int" where
  "MonthStart l m =
     (if m = 0 then 0 else if m = 1 then 31 else if m = 2 then 59 + l
      else if m = 3 then 90 + l else if m = 4 then 120 + l else if m = 5 then 151 + l
      else if m = 6 then 181 + l else if m = 7 then 212 + l else if m = 8 then 243 + l
      else if m = 9 then 273 + l else if m = 10 then 304 + l else 334 + l)"

definition MonthFromDay :: "int \<Rightarrow> int" where
  "MonthFromDay d =
     (let dwy = DayWithinYear d; l = InLeapYear (YearFromDay d)
      in if dwy < 31 then 0 else if dwy < 59 + l then 1 else if dwy < 90 + l then 2
         else if dwy < 120 + l then 3 else if dwy < 151 + l then 4 else if dwy < 181 + l then 5
         else if dwy < 212 + l then 6 else if dwy < 243 + l then 7 else if dwy < 273 + l then 8
         else if dwy < 304 + l then 9 else if dwy < 334 + l then 10 else 11)"

definition DateFromDay :: "int \<Rightarrow> int" where
  "DateFromDay d =
     DayWithinYear d - MonthStart (InLeapYear (YearFromDay d)) (MonthFromDay d) + 1"

definition getFullYear :: "int \<Rightarrow> int \<Rightarrow> int" where
  "getFullYear tz t = YearFromDay (LocalTime tz t div msPerDay)"

text \<open>\<^verbatim>\<open>getMonth\<close> counts from 0.\<close>

definition getMonth :: "int \<Rightarrow> int \<Rightarrow> int" where
  "getMonth tz t = MonthFromDay (LocalTime tz t div msPerDay)"

definition getDate :: "int \<Rightarrow> int \<Rightarrow> int" where
  "getDate tz t = DateFromDay (LocalTime tz t div msPerDay)"

text \<open>\<^verbatim>\<open>getDay\<close>: 0 is Sunday; 1970-01-01 was a Thursday.\<close>

definition getDay :: "int \<Rightarrow> int \<Rightarrow> int" where
  "getDay tz t = (LocalTime tz t div msPerDay + 4) mod 7"

text \<open>
  ECMAScript's \<^verbatim>\<open>MakeDay\<close>: the month counts from 0 and may overflow into the year, the
  day of the month may be any integer (day 0 is the last day of the month before).
\<close>

definition MakeDay :: "int \<Rightarrow> int \<Rightarrow> int \<Rightarrow> int" where
  "MakeDay year month date =
     (let ym = year + month div 12; mn = month mod 12
      in DayFromYear ym + MonthStart (InLeapYear ym) mn + date - 1)"

text \<open>
  \<^verbatim>\<open>new Date(year, month, date).getTime()\<close>: local midnight of that day. The constructor
  reads a year from 0 to 99 as 1900 + year.
\<close>

definition Date_getTime :: "int \<Rightarrow> int \<Rightarrow> int \<Rightarrow> int \<Rightarrow> int" where
  "Date_getTime tz year month date =
     (let yr = (if 0 \<le> year \<and> year \<le> 99 then 1900 + year else year)
      in UTC tz (MakeDay yr month date * msPerDay))"

text \<open>\<^verbatim>\<open>date.setMinutes(0, 0, 0)\<close>: the start of the local hour.\<close>

definition setMinutes0 :: "int \<Rightarrow> int \<Rightarrow> int" where
  "setMinutes0 tz t = UTC tz (LocalTime tz t - LocalTime tz t mod msPerHour)"

text \<open>\<^verbatim>\<open>date.setHours(0, 0, 0, 0)\<close>: the start of the local day.\<close>

definition setHours0 :: "int \<Rightarrow> int \<Rightarrow> int" where
  "setHours0 tz t = UTC tz (LocalTime tz t - LocalTime tz t mod msPerDay)"

text \<open>\<^verbatim>\<open>date.setDate(d)\<close>: the same local time of day, on day \<open>d\<close> of the month of \<open>t\<close>.\<close>

definition setDate :: "int \<Rightarrow> int \<Rightarrow> int \<Rightarrow> int" where
  "setDate tz t d =
     UTC tz (MakeDay (getFullYear tz t) (getMonth tz t) d * msPerDay
             + LocalTime tz t mod msPerDay)"

section \<open>The Map object\<close>

text \<open>
  A JavaScript \<^verbatim>\<open>Map\<close> keeps its entries in insertion order; it is an association list.
  \<^verbatim>\<open>has\<close> and \<^verbatim>\<open>get\<close> are \<open>map_of\<close>; \<^verbatim>\<open>set\<close>, and the assignment to a field of the
  object that \<^verbatim>\<open>get\<close> returned, are \<open>AList.update\<close>, which replaces the value of a key
  in place and appends a new key at the end. \<^verbatim>\<open>Array.from(m.values())\<close> is \<open>map snd\<close>.

  \<^verbatim>\<open>xs.sort((a, b) => a.timestamp - b.timestamp)\<close> is a stable sort by timestamp:
  \<open>sort_key timestamp\<close>.
\<close>

section \<open>Aggregator\<close>

text \<open>The bucket key of a timestamp: lines 140-149 of \<^verbatim>\<open>aggregateData\<close>.\<close>

definition bucket_key :: "int \<Rightarrow> interval \<Rightarrow> int \<Rightarrow> int" where
  "bucket_key tz intervalType t =
     (case intervalType of
        Hour \<Rightarrow> setMinutes0 tz t
      | Day \<Rightarrow> setHours0 tz t
      | Week \<Rightarrow>
          (let day = getDay tz t;
               diff = getDate tz t - day + (if day = 0 then - 6 else 1)
           in setHours0 tz (setDate tz t diff))
      | Month \<Rightarrow> Date_getTime tz (getFullYear tz t) (getMonth tz t) 1)"

text \<open>The body of the \<^verbatim>\<open>forEach\<close> at lines 139-160.\<close>

definition aggregate_step ::
  "int \<Rightarrow> interval \<Rightarrow> (int \<times> ('n::{linorder,plus}) daily_record) list \<Rightarrow> 'n daily_record
     \<Rightarrow> (int \<times> 'n daily_record) list"
where
  "aggregate_step tz intervalType grouped point =
     (let key = bucket_key tz intervalType (timestamp point)
      in case map_of grouped key of
           None \<Rightarrow> AList.update key (point\<lparr>timestamp := key\<rparr>) grouped
         | Some grp \<Rightarrow>
             AList.update key
               (grp\<lparr>high := max (high grp) (high point),
                    low := min (low grp) (low point),
                    close := close point,
                    volume := volume grp + volume point\<rparr>) grouped)"

text \<open>
  \<^verbatim>\<open>aggregateData(data, intervalType)\<close>, lines 135-163. The argument is \<open>None\<close> when the
  caller passes \<^verbatim>\<open>null\<close> or \<^verbatim>\<open>undefined\<close>.
\<close>

definition aggregateData ::
  "int \<Rightarrow> ('n::{linorder,plus}) daily_record list option \<Rightarrow> interval \<Rightarrow> 'n daily_record list"
where
  "aggregateData tz data intervalType =
     (case data of
        None \<Rightarrow> []
      | Some points \<Rightarrow>
          if length points = 0 then []
          else sort_key timestamp (map snd (foldl (aggregate_step tz intervalType) [] points)))"

section \<open>Archive loader\<close>

text \<open>
  One line of the archive after \<^verbatim>\<open>split(',').map(v => parseFloat(v))\<close> (line 181).
  The timestamp is \<open>None\<close> when \<^verbatim>\<open>parseFloat\<close> gave \<^verbatim>\<open>NaN\<close>; a blank line, which line
  179 skips, has such a timestamp too. Otherwise it is a whole number of seconds, as in
  the bundled file, so that the product \<^verbatim>\<open>timestamp * 1000\<close> of line 184 is exact.
\<close>

record 'n csv_row =
  row_timestamp :: "int option"
  row_open :: 'n
  row_high :: 'n
  row_low :: 'n
  row_close :: 'n
  row_volume :: 'n

text \<open>
  \<^verbatim>\<open>new Date(date.getFullYear(), date.getMonth(), date.getDate()).getTime()\<close>
  (lines 185 and 239).
\<close>

definition dayKey :: "int \<Rightarrow> int \<Rightarrow> int" where
  "dayKey tz t = Date_getTime tz (getFullYear tz t) (getMonth tz t) (getDate tz t)"

text \<open>The body of the loop at lines 178-203.\<close>

definition csv_step ::
  "int \<Rightarrow> (int \<times> ('n::{linorder,plus}) daily_record) list \<Rightarrow> 'n csv_row
     \<Rightarrow> (int \<times> 'n daily_record) list"
where
  "csv_step tz dailyData row =
     (case row_timestamp row of
        None \<Rightarrow> dailyData
      | Some ts \<Rightarrow>
          (let k = dayKey tz (ts * 1000)
           in case map_of dailyData k of
                None \<Rightarrow>
                  AList.update k
                    \<lparr>timestamp = k, open_price = row_open row, high = row_high row,
                     low = row_low row, close = row_close row, volume = row_volume row\<rparr>
                    dailyData
              | Some day \<Rightarrow>
                  AList.update k
                    (day\<lparr>high := max (high day) (row_high row),
                         low := min (low day) (row_low row),
                         close := row_close row,
                         volume := volume day + row_volume row\<rparr>) dailyData))"

text \<open>
  Lines 173-205: the loop starts at index 1, after the header line, and the days are
  sorted by their keys.
\<close>

definition parseCSV :: "int \<Rightarrow> ('n::{linorder,plus}) csv_row list \<Rightarrow> 'n daily_record list" where
  "parseCSV tz lines = sort_key timestamp (map snd (foldl (csv_step tz) [] (drop 1 lines)))"

section \<open>Errors, the environment and the state\<close>

text \<open>
  An exception is a value of type \<open>error\<close>, which stands for the \<^verbatim>\<open>Error\<close> object and its
  message: \<open>ApiError n\<close> is \<^verbatim>\<open>new Error(`API Error: ${n}`)\<close> of line 229, \<open>TypeError\<close> is
  raised by reading a property of \<^verbatim>\<open>undefined\<close>, and \<open>Rejected m\<close> is the rejection,
  with message \<open>m\<close>, of a promise of the host (\<^verbatim>\<open>fetch\<close>, \<^verbatim>\<open>response.json()\<close>, IndexedDB).
\<close>

datatype error = ApiError nat | TypeError | Rejected string

text \<open>The response of the price API: its HTTP status and the \<^verbatim>\<open>prices\<close> of its body.\<close>

record 'n http_response =
  status :: nat
  prices :: "(int \<times> 'n) list"

text \<open>\<^verbatim>\<open>response.ok\<close>\<close>

definition ok :: "'n http_response \<Rightarrow> bool" where
  "ok response = (200 \<le> status response \<and> status response \<le> 299)"

text \<open>
  What the program reads from outside during one call: the clock (\<^verbatim>\<open>Date.now()\<close>), the
  archive file (its parsed lines, or the rejection of its \<^verbatim>\<open>fetch\<close>), the price API as a
  function of the \<^verbatim>\<open>from\<close> and \<^verbatim>\<open>to\<close> of the request, and whether IndexedDB rejects a
  read or a write transaction.
\<close>

record 'n world =
  now :: int
  csv_file :: "error + 'n csv_row list"
  api :: "int \<Rightarrow> int \<Rightarrow> error + 'n http_response"
  db_read_error :: "error option"
  db_write_error :: "error option"

text \<open>
  The state: the two static fields of \<^verbatim>\<open>CryptoService\<close> (lines 132-133) and the object
  store \<^verbatim>\<open>daily_prices\<close>, whose key path is \<^verbatim>\<open>timestamp\<close>: its records in key order.
\<close>

record 'n state =
  csvData :: "'n daily_record list option"
  loadingPromise :: "(error + 'n daily_record list) option"
  db :: "'n daily_record list"

text \<open>
  \<^verbatim>\<open>loadCSVData\<close>, lines 165-215. An array, even an empty one, is truthy at line 166.
  A load that failed stays in \<^verbatim>\<open>loadingPromise\<close>, and a later call returns its rejection.
\<close>

definition loadCSVData ::
  "int \<Rightarrow> ('n::{linorder,plus}) world \<Rightarrow> 'n state \<Rightarrow> (error + 'n daily_record list) \<times> 'n state"
where
  "loadCSVData tz w s =
     (case csvData s of
        Some d \<Rightarrow> (Inr d, s)
      | None \<Rightarrow>
          (case loadingPromise s of
             Some p \<Rightarrow> (p, s)
           | None \<Rightarrow>
               (case csv_file w of
                  Inl e \<Rightarrow> (Inl e, s\<lparr>loadingPromise := Some (Inl e)\<rparr>)
                | Inr lines \<Rightarrow>
                    (let d = parseCSV tz lines
                     in (Inr d, s\<lparr>csvData := Some d, loadingPromise := Some (Inr d)\<rparr>)))))"

section \<open>Local store\<close>

text \<open>\<^verbatim>\<open>store.put(data)\<close>: the record replaces the one with its key, if there is one.\<close>

definition store_put :: "'n daily_record \<Rightarrow> 'n daily_record list \<Rightarrow> 'n daily_record list" where
  "store_put r rs = insort_key timestamp r (filter (\<lambda>x. timestamp x \<noteq> timestamp r) rs)"

text \<open>\<^verbatim>\<open>getAllDailyPrices\<close>, lines 91-100.\<close>

definition getAllDailyPrices :: "'n world \<Rightarrow> 'n state \<Rightarrow> error + 'n daily_record list" where
  "getAllDailyPrices w s = (case db_read_error w of Some e \<Rightarrow> Inl e | None \<Rightarrow> Inr (db s))"

text \<open>
  \<^verbatim>\<open>saveBulkDailyPrices\<close>, lines 78-89: one transaction, which writes every record or,
  when it fails, none.
\<close>

definition saveBulkDailyPrices ::
  "'n world \<Rightarrow> 'n daily_record list \<Rightarrow> 'n state \<Rightarrow> (error + unit) \<times> 'n state"
where
  "saveBulkDailyPrices w dataArray s =
     (case db_write_error w of
        Some e \<Rightarrow> (Inl e, s)
      | None \<Rightarrow> (Inr (), s\<lparr>db := foldl (\<lambda>rs r. store_put r rs) (db s) dataArray\<rparr>))"

section \<open>Remote fetcher\<close>

text \<open>The body of the \<^verbatim>\<open>forEach\<close> at lines 237-256.\<close>

definition price_step ::
  "int \<Rightarrow> (int \<times> ('n::{linorder,zero}) daily_record) list \<Rightarrow> int \<times> 'n
     \<Rightarrow> (int \<times> 'n daily_record) list"
where
  "price_step tz dailyData sample =
     (case sample of (ts, price) \<Rightarrow>
        (let k = dayKey tz ts
         in case map_of dailyData k of
              None \<Rightarrow>
                AList.update k
                  \<lparr>timestamp = k, open_price = price, high = price, low = price,
                   close = price, volume = 0\<rparr> dailyData
            | Some day \<Rightarrow>
                AList.update k
                  (day\<lparr>high := max (high day) price,
                       low := min (low day) price,
                       close := price\<rparr>) dailyData))"

text \<open>Lines 235-258.\<close>

definition aggregatePrices :: "int \<Rightarrow> (int \<times> ('n::{linorder,zero})) list \<Rightarrow> 'n daily_record list" where
  "aggregatePrices tz ps = sort_key timestamp (map snd (foldl (price_step tz) [] ps))"

text \<open>\<^verbatim>\<open>fetchMissingDataFromAPI\<close>, lines 217-268.\<close>

definition fetchMissingDataFromAPI ::
  "int \<Rightarrow> ('n::{linorder,zero}) world \<Rightarrow> int \<Rightarrow> int \<Rightarrow> 'n state
     \<Rightarrow> (error + 'n daily_record list) \<times> 'n state"
where
  "fetchMissingDataFromAPI tz w fromTimestamp toTimestamp s =
     (let startDate = fromTimestamp div 1000;
          endDate = toTimestamp div 1000
      in case api w startDate endDate of
           Inl e \<Rightarrow> (Inl e, s)
         | Inr response \<Rightarrow>
             if \<not> ok response then (Inl (ApiError (status response)), s)
             else
               (let result = aggregatePrices tz (prices response)
                in case saveBulkDailyPrices w result s of
                     (Inl e, s') \<Rightarrow> (Inl e, s')
                   | (Inr u, s') \<Rightarrow> (Inr result, s')))"

section \<open>Reconciliation\<close>

datatype source = CSV_ONLY | CSV_AND_CACHE | LIVE_API | FETCHING | ERROR

text \<open>
  The object that \<^verbatim>\<open>fetchCombinedData\<close> returns, without \<^verbatim>\<open>lastUpdate\<close> (the clock read
  at the return). \<open>error\<close> holds the exception whose message the source stores.
\<close>

record 'n fetch_result =
  data :: "'n daily_record list"
  source :: source
  error :: "error option"
  missingDays :: int

definition oneDayMs :: int where
  "oneDayMs = 24 * 60 * 60 * 1000"

text \<open>
  Lines 282-287. The caller has checked that \<open>csvData\<close> is not empty.
  \<^verbatim>\<open>Math.max(...xs)\<close> of a non-empty array is its greatest element.
\<close>

definition lastTimestamp :: "'n daily_record list \<Rightarrow> 'n daily_record list \<Rightarrow> int" where
  "lastTimestamp csv cachedData =
     (let lastCSVTimestamp = timestamp (last csv);
          lastCachedTimestamp =
            (if length cachedData > 0 then Max (set (map timestamp cachedData))
             else lastCSVTimestamp)
      in max lastCSVTimestamp lastCachedTimestamp)"

text \<open>Line 292: \<^verbatim>\<open>Math.floor((now - lastTimestamp) / oneDayMs)\<close>.\<close>

definition daysSinceLastData :: "int \<Rightarrow> 'n daily_record list \<Rightarrow> 'n daily_record list \<Rightarrow> int" where
  "daysSinceLastData t csv cachedData = (t - lastTimestamp csv cachedData) div oneDayMs"

text \<open>
  Lines 296-305, and again lines 318-325: the records of \<open>newData\<close> whose timestamps
  \<open>allData\<close> does not have are pushed onto \<open>allData\<close>, which is then sorted.
\<close>

definition mergeData :: "'n daily_record list \<Rightarrow> 'n daily_record list \<Rightarrow> 'n daily_record list" where
  "mergeData allData newData =
     sort_key timestamp
       (allData @ filter (\<lambda>d. timestamp d \<notin> set (map timestamp allData)) newData)"

text \<open>
  The \<^verbatim>\<open>catch\<close> block, lines 341-364. \<open>md\<close> is the value of the variable \<^verbatim>\<open>missingDays\<close>
  when the exception was thrown.
\<close>

definition catch_block ::
  "int \<Rightarrow> ('n::{linorder,plus}) world \<Rightarrow> error \<Rightarrow> int \<Rightarrow> 'n state \<Rightarrow> 'n fetch_result \<times> 'n state"
where
  "catch_block tz w e md s =
     (case loadCSVData tz w s of
        (Inr csv, s') \<Rightarrow>
          (\<lparr>data = csv, source = CSV_ONLY, error = Some e, missingDays = md\<rparr>, s')
      | (Inl csvError, s') \<Rightarrow>
          (\<lparr>data = [], source = ERROR, error = Some csvError, missingDays = 0\<rparr>, s'))"

text \<open>
  \<^verbatim>\<open>fetchCombinedData(forceFetch)\<close>, lines 270-365. Line 282 reads
  \<^verbatim>\<open>csvData[csvData.length - 1].timestamp\<close>, which throws a \<^verbatim>\<open>TypeError\<close> when the
  archive is empty.
\<close>

definition fetchCombinedData ::
  "int \<Rightarrow> ('n::{linorder,plus,zero}) world \<Rightarrow> bool \<Rightarrow> 'n state \<Rightarrow> 'n fetch_result \<times> 'n state"
where
  "fetchCombinedData tz w forceFetch s =
     (case loadCSVData tz w s of
        (Inl e, s1) \<Rightarrow> catch_block tz w e 0 s1
      | (Inr csv, s1) \<Rightarrow>
          (case getAllDailyPrices w s1 of
             Inl e \<Rightarrow> catch_block tz w e 0 s1
           | Inr cachedData \<Rightarrow>
               if csv = [] then catch_block tz w TypeError 0 s1
               else
                 (let days = daysSinceLastData (now w) csv cachedData;
                      allData = mergeData csv cachedData
                  in if days > 0 \<or> forceFetch then
                       (case fetchMissingDataFromAPI tz w
                               (lastTimestamp csv cachedData + oneDayMs) (now w) s1 of
                          (Inl e, s2) \<Rightarrow> catch_block tz w e days s2
                        | (Inr newData, s2) \<Rightarrow>
                            if length newData > 0 then
                              (\<lparr>data = mergeData allData newData, source = LIVE_API,
                                error = None, missingDays = 0\<rparr>, s2)
                            else
                              (\<lparr>data = allData, source = FETCHING,
                                error = None, missingDays = days\<rparr>, s2))
                     else
                       (\<lparr>data = allData,
                         source = (if length cachedData > length csv then CSV_AND_CACHE
                                   else CSV_ONLY),
                         error = None, missingDays = days\<rparr>, s1))))"

section \<open>Auxiliary definitions\<close>

text \<open>
  The three loops of the source that fill a \<^verbatim>\<open>Map\<close> (lines 139-160, 178-203 and
  237-256) have one shape: an element without a key is skipped, the first element of a
  key stores a new value, a later one updates the stored value.
\<close>

definition upsert ::
  "('a \<Rightarrow> 'k option) \<Rightarrow> ('k \<Rightarrow> 'a \<Rightarrow> 'v) \<Rightarrow> ('v \<Rightarrow> 'a \<Rightarrow> 'v) \<Rightarrow> ('k \<times> 'v) list \<Rightarrow> 'a \<Rightarrow> ('k \<times> 'v) list"
where
  "upsert key init upd m x =
     (case key x of
        None \<Rightarrow> m
      | Some k \<Rightarrow>
          (case map_of m k of
             None \<Rightarrow> AList.update k (init k x) m
           | Some g \<Rightarrow> AList.update k (upd g x) m))"

text \<open>
  The update of the stored record, common to the three loops; \<open>vol\<close> is what the loop
  does to the volume.
\<close>

definition roll ::
  "('a \<Rightarrow> 'n) \<Rightarrow> ('a \<Rightarrow> 'n) \<Rightarrow> ('a \<Rightarrow> 'n) \<Rightarrow> ('n \<Rightarrow> 'a \<Rightarrow> 'n) \<Rightarrow> ('n::linorder) daily_record \<Rightarrow> 'a
     \<Rightarrow> 'n daily_record"
where
  "roll h l c vol g x =
     g\<lparr>high := max (high g) (h x), low := min (low g) (l x), close := c x,
       volume := vol (volume g) x\<rparr>"



definition price_record :: "int \<Rightarrow> int \<times> ('n::zero) \<Rightarrow> 'n daily_record" where
  "price_record k sample =
     \<lparr>timestamp = k, open_price = snd sample, high = snd sample, low = snd sample,
      close = snd sample, volume = 0\<rparr>"

text \<open>Records for the examples; their numbers are reals.\<close>

definition candle :: "int \<Rightarrow> real \<Rightarrow> real \<Rightarrow> real \<Rightarrow> real \<Rightarrow> real \<Rightarrow> real daily_record" where
  "candle t a h l c v =
     \<lparr>timestamp = t, open_price = a, high = h, low = l, close = c, volume = v\<rparr>"


text \<open>
  An archive: the header, then a line of 2023-12-31 23:01:00, a line that does not parse,
  a line of 2024-01-02 00:01:00 and a line of 2024-01-01 00:02:00 (UTC). One hour east of
  UTC, the first and the last of them are lines of the local day 2024-01-01.
\<close>

definition csv_line :: "int option \<Rightarrow> real \<Rightarrow> real \<Rightarrow> real \<Rightarrow> real \<Rightarrow> real \<Rightarrow> real csv_row" where
  "csv_line t a h l c v =
     \<lparr>row_timestamp = t, row_open = a, row_high = h, row_low = l, row_close = c, row_volume = v\<rparr>"


text \<open>
  An archive that ends at 2024-01-01, a store that holds 2024-01-02, the state after the
  archive has been loaded, the state of a new process, and an environment whose archive
  file has only its header line and whose price API gives one response.
\<close>

definition example_archive :: "real daily_record list" where
  "example_archive = [candle 1704067200000 90 101 89 100 5]"

definition example_store :: "real daily_record list" where
  "example_store = [candle 1704153600000 100 106 99 105 0]"

definition example_state :: "real state" where
  "example_state =
     \<lparr>csvData = Some example_archive, loadingPromise = Some (Inr example_archive),
      db = example_store\<rparr>"

definition fresh_state :: "real state" where
  "fresh_state = \<lparr>csvData = None, loadingPromise = None, db = []\<rparr>"

definition example_world :: "int \<Rightarrow> error + real http_response \<Rightarrow> real world" where
  "example_world t response =
     \<lparr>now = t, csv_file = Inr [csv_line None 0 0 0 0 0], api = (\<lambda>a b. response),
      db_read_error = None, db_write_error = None\<rparr>"

text \<open>A daily series: 2024-01-01 and 2024-01-02 at 00:00 (UTC).\<close>

definition daily_points :: "real daily_record list" where
  "daily_points = [candle 1704067200000 1 3 (1 / 2) 2 10, candle 1704153600000 4 6 3 5 7]"

section \<open>Filling a map in a loop\<close>

lemma map_of_upsert:
  "map_of (upsert key init upd m x) c =
     (if key x = Some c then Some (case map_of m c of None \<Rightarrow> init c x | Some g \<Rightarrow> upd g x)
      else map_of m c)"
  by (auto simp: upsert_def update_conv' split: option.splits)

lemma distinct_upsert:
  "distinct (map fst m) \<Longrightarrow> distinct (map fst (upsert key init upd m x))"
  by (simp add: upsert_def distinct_update split: option.splits)

lemma distinct_foldl_upsert:
  "distinct (map fst m) \<Longrightarrow> distinct (map fst (foldl (upsert key init upd) m xs))"
  by (induction xs arbitrary: m) (simp_all add: distinct_upsert)

lemma map_of_foldl_upsert:
  "map_of (foldl (upsert key init upd) m xs) c =
     (case filter (\<lambda>x. key x = Some c) xs of
        [] \<Rightarrow> map_of m c
      | y # ys \<Rightarrow> Some (foldl upd (case map_of m c of None \<Rightarrow> init c y | Some g \<Rightarrow> upd g y) ys))"
proof (induction xs arbitrary: m)
  case Nil
  show ?case by simp
next
  case (Cons x xs)
  show ?case
  proof (cases "key x = Some c")
    case True
    then show ?thesis
      by (simp add: Cons.IH map_of_upsert split: list.splits)
  next
    case False
    then show ?thesis
      by (simp add: Cons.IH map_of_upsert cong: list.case_cong)
  qed
qed

lemma map_of_foldl_upsert_Nil:
  "map_of (foldl (upsert key init upd) [] xs) c =
     (case filter (\<lambda>x. key x = Some c) xs of
        [] \<Rightarrow> None
      | y # ys \<Rightarrow> Some (foldl upd (init c y) ys))"
  by (simp add: map_of_foldl_upsert cong: list.case_cong)

lemma foldl_upsert_entry:
  assumes "(c, v) \<in> set (foldl (upsert key init upd) [] xs)"
  shows "\<exists>y ys. filter (\<lambda>x. key x = Some c) xs = y # ys \<and> v = foldl upd (init c y) ys"
proof -
  have "distinct (map fst (foldl (upsert key init upd) [] xs))"
    by (rule distinct_foldl_upsert) simp
  with assms have "map_of (foldl (upsert key init upd) [] xs) c = Some v"
    by simp
  then show ?thesis
    by (simp add: map_of_foldl_upsert_Nil split: list.splits)
qed

lemma foldl_upsert_keys:
  "fst ` set (foldl (upsert key init upd) [] xs) = {c. \<exists>x\<in>set xs. key x = Some c}"
proof -
  have "c \<in> fst ` set (foldl (upsert key init upd) [] xs) \<longleftrightarrow> (\<exists>x\<in>set xs. key x = Some c)" for c
  proof -
    have "c \<in> fst ` set (foldl (upsert key init upd) [] xs) \<longleftrightarrow>
          map_of (foldl (upsert key init upd) [] xs) c \<noteq> None"
      by (simp add: map_of_eq_None_iff)
    also have "\<dots> \<longleftrightarrow> filter (\<lambda>x. key x = Some c) xs \<noteq> []"
      by (simp add: map_of_foldl_upsert_Nil split: list.splits)
    also have "\<dots> \<longleftrightarrow> (\<exists>x\<in>set xs. key x = Some c)"
      by (simp add: filter_empty_conv)
    finally show ?thesis .
  qed
  then show ?thesis by blast
qed

text \<open>Every entry of the map is the roll-up of the elements that have its key.\<close>

lemma timestamp_foldl_roll [simp]: "timestamp (foldl (roll h l c v) g xs) = timestamp g"
  by (induction xs arbitrary: g) (simp_all add: roll_def)

lemma open_foldl_roll [simp]: "open_price (foldl (roll h l c v) g xs) = open_price g"
  by (induction xs arbitrary: g) (simp_all add: roll_def)

lemma high_foldl_roll: "high (foldl (roll h l c v) g xs) = Max (insert (high g) (h ` set xs))"
proof (induction xs rule: rev_induct)
  case Nil
  show ?case by simp
next
  case (snoc x xs)
  have "Max (insert (h x) (insert (high g) (h ` set xs))) = max (h x) (Max (insert (high g) (h ` set xs)))"
    by (rule Max_insert) simp_all
  then show ?case
    using snoc by (simp add: roll_def insert_commute max.commute)
qed

lemma low_foldl_roll: "low (foldl (roll h l c v) g xs) = Min (insert (low g) (l ` set xs))"
proof (induction xs rule: rev_induct)
  case Nil
  show ?case by simp
next
  case (snoc x xs)
  have "Min (insert (l x) (insert (low g) (l ` set xs))) = min (l x) (Min (insert (low g) (l ` set xs)))"
    by (rule Min_insert) simp_all
  then show ?case
    using snoc by (simp add: roll_def insert_commute min.commute)
qed

lemma close_foldl_roll:
  "close (foldl (roll h l c v) g xs) = (if xs = [] then close g else c (last xs))"
  by (induction xs rule: rev_induct) (simp_all add: roll_def)

lemma volume_foldl_roll:
  "volume (foldl (roll h l c v) g xs) = foldl v (volume g) xs"
  by (induction xs rule: rev_induct) (simp_all add: roll_def)

lemma strict_sorted_sort_key:
  fixes ts :: "'v \<Rightarrow> int"
  assumes "distinct (map ts xs)"
  shows "sorted_wrt (<) (map ts (sort_key ts xs))"
proof -
  have "distinct (map ts (sort_key ts xs))"
    using assms by (simp add: distinct_map)
  moreover have "sorted (map ts (sort_key ts xs))"
    by (rule sorted_sort_key)
  ultimately show ?thesis
    by (simp add: strict_sorted_iff)
qed

lemma grouped_entry_ts:
  fixes ts :: "'v \<Rightarrow> int"
  assumes init: "\<And>x k. ts (init k x) = k"
    and upd: "\<And>g x. ts (upd g x) = ts g"
    and mem: "(c, v) \<in> set (foldl (upsert key init upd) [] xs)"
  shows "ts v = c"
proof -
  have fold_ts: "ts (foldl upd g ys) = ts g" for g ys
    by (induction ys arbitrary: g) (simp_all add: upd)
  obtain y ys where f: "filter (\<lambda>x. key x = Some c) xs = y # ys" and v: "v = foldl upd (init c y) ys"
    using foldl_upsert_entry [OF mem] by blast
  show ?thesis by (simp add: v fold_ts init)
qed

lemma grouped_timestamps:
  fixes ts :: "'v \<Rightarrow> int"
  assumes init: "\<And>x k. ts (init k x) = k"
    and upd: "\<And>g x. ts (upd g x) = ts g"
  shows "map (ts \<circ> snd) (foldl (upsert key init upd) [] xs) = map fst (foldl (upsert key init upd) [] xs)"
  using grouped_entry_ts [where key = key and ts = ts and init = init and upd = upd, OF init upd] by auto

lemma grouped_sorted:
  fixes ts :: "'v \<Rightarrow> int"
  assumes init: "\<And>x k. ts (init k x) = k"
    and upd: "\<And>g x. ts (upd g x) = ts g"
  shows "sorted_wrt (<) (map ts (sort_key ts (map snd (foldl (upsert key init upd) [] xs))))"
proof (rule strict_sorted_sort_key)
  have "distinct (map fst (foldl (upsert key init upd) [] xs))"
    by (rule distinct_foldl_upsert) simp
  then show "distinct (map ts (map snd (foldl (upsert key init upd) [] xs)))"
    by (simp add: grouped_timestamps [where key = key and ts = ts and init = init and upd = upd, OF init upd])
qed

lemma grouped_keys:
  fixes ts :: "'v \<Rightarrow> int"
  assumes init: "\<And>x k. ts (init k x) = k"
    and upd: "\<And>g x. ts (upd g x) = ts g"
  shows "ts ` set (sort_key ts (map snd (foldl (upsert key init upd) [] xs))) = {c. \<exists>x\<in>set xs. key x = Some c}"
proof -
  have "ts ` set (sort_key ts (map snd (foldl (upsert key init upd) [] xs)))
        = set (map (ts \<circ> snd) (foldl (upsert key init upd) [] xs))"
    by (simp add: image_comp)
  also have "\<dots> = set (map fst (foldl (upsert key init upd) [] xs))"
    by (simp only: grouped_timestamps [where key = key and ts = ts and init = init and upd = upd, OF init upd])
  also have "\<dots> = fst ` set (foldl (upsert key init upd) [] xs)"
    by simp
  finally show ?thesis
    by (simp add: foldl_upsert_keys)
qed

lemma grouped_member:
  fixes ts :: "'v \<Rightarrow> int"
  assumes init: "\<And>x k. ts (init k x) = k"
    and upd: "\<And>g x. ts (upd g x) = ts g"
    and r: "r \<in> set (sort_key ts (map snd (foldl (upsert key init upd) [] xs)))"
  shows "\<exists>c y ys. ts r = c \<and> filter (\<lambda>x. key x = Some c) xs = y # ys \<and> r = foldl upd (init c y) ys"
proof -
  from r obtain c where c: "(c, r) \<in> set (foldl (upsert key init upd) [] xs)"
    by auto
  have "ts r = c"
    by (rule grouped_entry_ts [where key = key and ts = ts and init = init and upd = upd, OF init upd c])
  with foldl_upsert_entry [OF c] show ?thesis by blast
qed

section \<open>Properties of the aggregator\<close>

lemma aggregate_step_upsert:
  "aggregate_step tz g =
     upsert (\<lambda>p. Some (bucket_key tz g (timestamp p)))
       (\<lambda>k p. p\<lparr>timestamp := k\<rparr>)
       (roll high low close (\<lambda>v p. v + volume p))"
  by (intro ext) (simp add: aggregate_step_def upsert_def roll_def Let_def split: option.splits)

lemma aggregateData_Some:
  "aggregateData tz (Some points) g =
     sort_key timestamp (map snd (foldl (aggregate_step tz g) [] points))"
  by (cases points) (simp_all add: aggregateData_def)


lemma strict_sorted_distinct:
  fixes ks :: "int list"
  shows "sorted_wrt (<) ks \<Longrightarrow> distinct ks"
  by (simp add: strict_sorted_iff)

lemma aggregateData_sorted:
  "sorted_wrt (<) (map timestamp (aggregateData tz (Some points) g))"
  unfolding aggregateData_Some aggregate_step_upsert
  by (rule grouped_sorted [where ts = timestamp and key = "\<lambda>p. Some (bucket_key tz g (timestamp p))" and init = "\<lambda>k p. p\<lparr>timestamp := k\<rparr>" and upd = "roll high low close (\<lambda>v p. v + volume p)"]) (simp_all add: roll_def)

lemma aggregateData_keys:
  "timestamp ` set (aggregateData tz (Some points) g) = bucket_key tz g ` timestamp ` set points"
proof -
  have "timestamp ` set (sort_key timestamp (map snd (foldl (upsert (\<lambda>p. Some (bucket_key tz g (timestamp p))) (\<lambda>k p. p\<lparr>timestamp := k\<rparr>) (roll high low close (\<lambda>v p. v + volume p))) [] points)))
        = {c. \<exists>x\<in>set points. Some (bucket_key tz g (timestamp x)) = Some c}"
    by (rule grouped_keys [where ts = timestamp and key = "\<lambda>p. Some (bucket_key tz g (timestamp p))" and init = "\<lambda>k p. p\<lparr>timestamp := k\<rparr>" and upd = "roll high low close (\<lambda>v p. v + volume p)"]) (simp_all add: roll_def)
  then show ?thesis
    unfolding aggregateData_Some aggregate_step_upsert by auto
qed



lemma update_fresh: "k \<notin> fst ` set al \<Longrightarrow> AList.update k v al = al @ [(k, v)]"
  by (induction al) auto

lemma foldl_aggregate_step_fixed:
  assumes "\<forall>p\<in>set S. bucket_key tz g (timestamp p) = timestamp p" and "distinct (map timestamp S)"
  shows "foldl (aggregate_step tz g) [] S = map (\<lambda>p. (timestamp p, p)) S"
  using assms
proof (induction S rule: rev_induct)
  case Nil
  show ?case by simp
next
  case (snoc x xs)
  then have IH: "foldl (aggregate_step tz g) [] xs = map (\<lambda>p. (timestamp p, p)) xs"
    by simp
  from snoc.prems have fresh: "timestamp x \<notin> timestamp ` set xs" and key: "bucket_key tz g (timestamp x) = timestamp x"
    by simp_all
  from fresh have none: "map_of (map (\<lambda>p. (timestamp p, p)) xs) (timestamp x) = None"
    by (simp add: map_of_eq_None_iff image_image)
  from fresh have "AList.update (timestamp x) x (map (\<lambda>p. (timestamp p, p)) xs) = map (\<lambda>p. (timestamp p, p)) xs @ [(timestamp x, x)]"
    by (intro update_fresh) (simp add: image_image)
  then have "aggregate_step tz g (map (\<lambda>p. (timestamp p, p)) xs) x = map (\<lambda>p. (timestamp p, p)) xs @ [(timestamp x, x)]"
    by (simp add: aggregate_step_def key none)
  moreover have "foldl (aggregate_step tz g) [] (xs @ [x]) = aggregate_step tz g (foldl (aggregate_step tz g) [] xs) x"
    by simp
  ultimately show ?case
    by (simp only: IH map_append list.map)
qed

lemma aggregateData_fixed:
  assumes "\<forall>p\<in>set S. bucket_key tz g (timestamp p) = timestamp p" and "sorted_wrt (<) (map timestamp S)"
  shows "aggregateData tz (Some S) g = S"
proof -
  from assms(2) have d: "distinct (map timestamp S)" and s: "sorted (map timestamp S)"
    by (simp_all add: strict_sorted_iff)
  have "map snd (map (\<lambda>p. (timestamp p, p)) S) = S"
    by (simp add: comp_def)
  then show ?thesis
    by (simp only: aggregateData_Some foldl_aggregate_step_fixed [OF assms(1) d] sort_key_id_if_sorted [OF s])
qed

lemma eval_Day:
  "bucket_key 0 Day 1704153600000 = 1704153600000"
  "bucket_key 0 Day 1704067200000 = 1704067200000"
  "bucket_key 0 Day 1704070800000 = 1704067200000"
  by (simp_all add: bucket_key_def setHours0_def LocalTime_def UTC_def msPerDay_def)



lemma day_start_fixed: "(t + tz) mod msPerDay = 0 \<Longrightarrow> bucket_key tz Day t = t"
  by (simp add: bucket_key_def setHours0_def LocalTime_def UTC_def)

text \<open>
  Claim C7. A series is daily when every timestamp is the start of a day of the local
  calendar and the timestamps increase strictly. For such a series \<open>S\<close>, aggregating
  \<open>aggregateData S Day\<close> by day again gives \<open>aggregateData S Day\<close>. (The lemma
  \<open>aggregateData_day_idempotent_any\<close> below shows the equation for every series.)
\<close>

theorem aggregateData_day_idempotent:
  assumes "\<forall>p\<in>set S. (timestamp p + tz) mod msPerDay = 0"
    and "sorted_wrt (<) (map timestamp S)"
  shows "aggregateData tz (Some (aggregateData tz (Some S) Day)) Day
           = aggregateData tz (Some S) Day"
proof -
  from assms(1) have "\<forall>p\<in>set S. bucket_key tz Day (timestamp p) = timestamp p"
    by (simp add: day_start_fixed)
  then have "aggregateData tz (Some S) Day = S"
    using assms(2) by (rule aggregateData_fixed)
  then show ?thesis by simp
qed

theorem aggregateData_day_idempotent_witness:
  "aggregateData 0 (Some (aggregateData 0 (Some daily_points) Day)) Day = daily_points"
proof -
  have h1: "\<forall>p\<in>set daily_points. (timestamp p + 0) mod msPerDay = 0"
    by (simp add: daily_points_def candle_def msPerDay_def)
  have h2: "sorted_wrt (<) (map timestamp daily_points)"
    by (simp add: daily_points_def candle_def)
  have "aggregateData 0 (Some daily_points) Day = daily_points"
    by (simp add: aggregateData_def daily_points_def aggregate_step_def candle_def eval_Day)
  with aggregateData_day_idempotent [OF h1 h2] show ?thesis
    by simp
qed

text \<open>The output of a daily aggregation is daily, so the same holds for any series.\<close>

lemma bucket_key_Day_idem: "bucket_key tz Day (bucket_key tz Day t) = bucket_key tz Day t"
proof -
  have "t - (t + tz) mod msPerDay + tz = msPerDay * ((t + tz) div msPerDay)"
    by (simp add: minus_mod_eq_mult_div [symmetric])
  then have "(t - (t + tz) mod msPerDay + tz) mod msPerDay = 0"
    by simp
  then show ?thesis
    by (simp add: bucket_key_def setHours0_def LocalTime_def UTC_def)
qed

lemma aggregateData_day_idempotent_any:
  "aggregateData tz (Some (aggregateData tz (Some S) Day)) Day = aggregateData tz (Some S) Day"
proof (rule aggregateData_fixed)
  show "\<forall>p\<in>set (aggregateData tz (Some S) Day). bucket_key tz Day (timestamp p) = timestamp p"
  proof
    fix p assume "p \<in> set (aggregateData tz (Some S) Day)"
    then have "timestamp p \<in> bucket_key tz Day ` timestamp ` set S"
      using aggregateData_keys [of tz S Day] by blast
    then show "bucket_key tz Day (timestamp p) = timestamp p"
      by (auto simp: bucket_key_Day_idem)
  qed
  show "sorted_wrt (<) (map timestamp (aggregateData tz (Some S) Day))"
    by (rule aggregateData_sorted)
qed

section \<open>Properties of the calendar\<close>

text \<open>\<^verbatim>\<open>MakeDay\<close> gives back the day whose year, month and day of the month it is given.\<close>

lemma MonthFromDay_range: "0 \<le> MonthFromDay d \<and> MonthFromDay d \<le> 11"
  by (simp add: MonthFromDay_def Let_def)

lemma MakeDay_roundtrip: "MakeDay (YearFromDay d) (MonthFromDay d) (DateFromDay d) = d"
proof -
  have "MonthFromDay d div 12 = 0" "MonthFromDay d mod 12 = MonthFromDay d"
    using MonthFromDay_range [of d] by simp_all
  then show ?thesis
    by (simp add: MakeDay_def DateFromDay_def DayWithinYear_def)
qed

lemma div_lower: "0 < n \<Longrightarrow> n * (a div n) \<le> a" for a n :: int
  using mult_div_mod_eq [of n a] pos_mod_sign [of n a] by linarith

lemma div_upper: "0 < n \<Longrightarrow> a < n * (a div n) + n" for a n :: int
  using mult_div_mod_eq [of n a] pos_mod_bound [of n a] by linarith

lemma DayFromYear_mono: "y \<le> y' \<Longrightarrow> DayFromYear y \<le> DayFromYear y'"
proof -
  assume le: "y \<le> y'"
  define a a' b b' c c' where "a = (y - 1969) div 4" and "a' = (y' - 1969) div 4"
    and "b = (y - 1901) div 100" and "b' = (y' - 1901) div 100"
    and "c = (y - 1601) div 400" and "c' = (y' - 1601) div 400"
  have a: "a \<le> a'"
    unfolding a_def a'_def using le by (intro zdiv_mono1) simp_all
  have c: "c \<le> c'"
    unfolding c_def c'_def using le by (intro zdiv_mono1) simp_all
  have b1: "100 * b' \<le> y' - 1901"
    unfolding b'_def by (rule div_lower) simp
  have b2: "y - 1901 < 100 * b + 100"
    unfolding b_def by (rule div_upper) simp
  have "365 * (y - 1970) + a - b + c \<le> 365 * (y' - 1970) + a' - b' + c'"
  proof (cases "y = y'")
    case True
    then show ?thesis
      by (simp add: a_def a'_def b_def b'_def c_def c'_def)
  next
    case False
    with le have "y + 1 \<le> y'" by simp
    with a c b1 b2 show ?thesis by (simp add: algebra_simps)
  qed
  then show ?thesis
    by (simp only: DayFromYear_def a_def a'_def b_def b'_def c_def c'_def)
qed

lemma YearFromDay_correct:
  "DayFromYear (YearFromDay d) \<le> d \<and> d < DayFromYear (YearFromDay d + 1)"
proof -
  define e where "e = (400 * d) div 146097"
  have e1: "146097 * e \<le> 400 * d"
    unfolding e_def by (rule div_lower) simp
  have e2: "400 * d < 146097 * e + 146097"
    unfolding e_def by (rule div_upper) simp
  have lo: "DayFromYear (1970 + e - 1) \<le> d"
  proof -
    define a b c where "a = (1970 + e - 1 - 1969) div 4"
      and "b = (1970 + e - 1 - 1901) div 100" and "c = (1970 + e - 1 - 1601) div 400"
    have "4 * a \<le> 1970 + e - 1 - 1969"
      unfolding a_def by (rule div_lower) simp
    moreover have "1970 + e - 1 - 1901 < 100 * b + 100"
      unfolding b_def by (rule div_upper) simp
    moreover have "400 * c \<le> 1970 + e - 1 - 1601"
      unfolding c_def by (rule div_lower) simp
    ultimately have "365 * (1970 + e - 1 - 1970) + a - b + c \<le> d"
      using e1 by (simp add: algebra_simps)
    then show ?thesis
      by (simp only: DayFromYear_def a_def b_def c_def)
  qed
  have hi: "d < DayFromYear (1970 + e + 2)"
  proof -
    define a b c where "a = (1970 + e + 2 - 1969) div 4"
      and "b = (1970 + e + 2 - 1901) div 100" and "c = (1970 + e + 2 - 1601) div 400"
    have "1970 + e + 2 - 1969 < 4 * a + 4"
      unfolding a_def by (rule div_upper) simp
    moreover have "100 * b \<le> 1970 + e + 2 - 1901"
      unfolding b_def by (rule div_lower) simp
    moreover have "1970 + e + 2 - 1601 < 400 * c + 400"
      unfolding c_def by (rule div_upper) simp
    ultimately have "d < 365 * (1970 + e + 2 - 1970) + a - b + c"
      using e2 by (simp add: algebra_simps)
    then show ?thesis
      by (simp only: DayFromYear_def a_def b_def c_def)
  qed
  have two: "1970 + e + 1 + 1 = 1970 + e + 2"
    by simp
  show ?thesis
    using lo hi by (auto simp: YearFromDay_def Let_def e_def [symmetric] two)
qed

lemma YearFromDay_ge_100: "- 683003 \<le> d \<Longrightarrow> 100 \<le> YearFromDay d"
proof (rule ccontr)
  assume d: "- 683003 \<le> d" and "\<not> 100 \<le> YearFromDay d"
  then have "YearFromDay d + 1 \<le> 100" by simp
  then have "DayFromYear (YearFromDay d + 1) \<le> DayFromYear 100"
    by (rule DayFromYear_mono)
  moreover have "DayFromYear 100 = - 683003"
    by (simp add: DayFromYear_def)
  ultimately show False
    using YearFromDay_correct [of d] d by linarith
qed

text \<open>
  From the year 100 on, the day key of a timestamp is the start of its local calendar day.
  (The constructor of line 185 reads the years 0 to 99 as 1900 to 1999; the local time
  \<open>- 59011459200000\<close> is 0100-01-01 00:00.)
\<close>

lemma dayKey_local_midnight:
  assumes "- 59011459200000 \<le> t + tz"
  shows "dayKey tz t = t - (t + tz) mod 86400000"
proof -
  define d where "d = (t + tz) div 86400000"
  have "(- 59011459200000) div 86400000 \<le> (t + tz) div (86400000 :: int)"
    using assms by (intro zdiv_mono1) simp_all
  then have "- 683003 \<le> d"
    by (simp add: d_def)
  then have "100 \<le> YearFromDay d"
    by (rule YearFromDay_ge_100)
  then have "(if 0 \<le> YearFromDay d \<and> YearFromDay d \<le> 99 then 1900 + YearFromDay d
              else YearFromDay d) = YearFromDay d"
    by simp
  then have "dayKey tz t = d * 86400000 - tz"
    by (simp add: dayKey_def Date_getTime_def getFullYear_def getMonth_def getDate_def
        LocalTime_def UTC_def msPerDay_def d_def [symmetric] MakeDay_roundtrip Let_def)
  also have "\<dots> = t - (t + tz) mod 86400000"
    unfolding d_def using div_mult_mod_eq [of "t + tz" 86400000] by linarith
  finally show ?thesis .
qed


lemma same_day_same_midnight:
  fixes t1 t2 tz :: int
  assumes "(t1 + tz) div 86400000 = (t2 + tz) div 86400000"
  shows "t1 - (t1 + tz) mod 86400000 = t2 - (t2 + tz) mod 86400000"
proof -
  have "t - (t + tz) mod 86400000 = 86400000 * ((t + tz) div 86400000) - tz" for t :: int
    using mult_div_mod_eq [of 86400000 "t + tz"] by linarith
  then show ?thesis
    using assms by simp
qed

section \<open>Properties of the archive loader\<close>


lemma price_step_upsert:
  "price_step tz = upsert (\<lambda>s. Some (dayKey tz (fst s))) price_record (roll snd snd snd (\<lambda>v s. v))"
  by (intro ext)
    (simp add: price_step_def upsert_def roll_def price_record_def Let_def
      split: option.splits prod.splits)



lemma rollup_fields:
  assumes "r = foldl (roll h l c v) g ys"
  shows "timestamp r = timestamp g" "open_price r = open_price g"
    "high r = Max (insert (high g) (h ` set ys))"
    "low r = Min (insert (low g) (l ` set ys))"
    "close r = (if ys = [] then close g else c (last ys))"
    "volume r = foldl v (volume g) ys"
  by (simp_all only: assms timestamp_foldl_roll open_foldl_roll high_foldl_roll low_foldl_roll
      close_foldl_roll volume_foldl_roll)











section \<open>Properties of the remote fetcher\<close>

lemma aggregatePrices_upsert:
  "aggregatePrices tz ps =
     sort_key timestamp (map snd
       (foldl (upsert (\<lambda>s. Some (dayKey tz (fst s))) price_record (roll snd snd snd (\<lambda>v s. v))) [] ps))"
  by (simp only: aggregatePrices_def price_step_upsert)

lemma aggregatePrices_sorted: "sorted_wrt (<) (map timestamp (aggregatePrices tz ps))"
  unfolding aggregatePrices_upsert
  by (rule grouped_sorted [where ts = timestamp and key = "\<lambda>s. Some (dayKey tz (fst s))"
        and init = price_record and upd = "roll snd snd snd (\<lambda>v s. v)"])
    (simp_all add: roll_def price_record_def)

lemma aggregatePrices_keys:
  "timestamp ` set (aggregatePrices tz ps) = dayKey tz ` fst ` set ps"
proof -
  have "timestamp ` set (aggregatePrices tz ps) = {k. \<exists>s\<in>set ps. Some (dayKey tz (fst s)) = Some k}"
    unfolding aggregatePrices_upsert
    by (rule grouped_keys [where ts = timestamp and key = "\<lambda>s. Some (dayKey tz (fst s))"
        and init = price_record and upd = "roll snd snd snd (\<lambda>v s. v)"])
      (simp_all add: roll_def price_record_def)
  then show ?thesis by auto
qed

lemma foldl_keep: "foldl (\<lambda>v s. v) a ys = a"
  by (induction ys) simp_all

lemma aggregatePrices_member:
  assumes r: "r \<in> set (aggregatePrices tz ps)"
  defines "day \<equiv> map snd (filter (\<lambda>s. dayKey tz (fst s) = timestamp r) ps)"
  shows "day \<noteq> [] \<and> open_price r = hd day \<and> close r = last day \<and>
         high r = Max (set day) \<and> low r = Min (set day) \<and> volume r = 0"
proof -
  have "\<exists>c y ys. timestamp r = c \<and> filter (\<lambda>s. Some (dayKey tz (fst s)) = Some c) ps = y # ys \<and>
          r = foldl (roll snd snd snd (\<lambda>v s. v)) (price_record c y) ys"
    using r unfolding aggregatePrices_upsert
    by (rule grouped_member [where ts = timestamp and key = "\<lambda>s. Some (dayKey tz (fst s))"
        and init = price_record and upd = "roll snd snd snd (\<lambda>v s. v)", rotated 2])
      (simp_all add: roll_def price_record_def)
  then have "\<exists>c y ys. timestamp r = c \<and> filter (\<lambda>s. dayKey tz (fst s) = c) ps = y # ys \<and>
          r = foldl (roll snd snd snd (\<lambda>v s. v)) (price_record c y) ys"
    by (simp only: option.inject)
  then obtain c y ys where c: "timestamp r = c"
    and f: "filter (\<lambda>s. dayKey tz (fst s) = c) ps = y # ys"
    and req: "r = foldl (roll snd snd snd (\<lambda>v s. v)) (price_record c y) ys"
    by blast
  have day: "day = snd y # map snd ys"
    by (simp only: day_def c f list.map)
  show ?thesis
    unfolding day rollup_fields [OF req]
    by (simp add: price_record_def last_map foldl_keep)
qed

lemma aggregatePrices_same_day:
  assumes "dayKey tz t1 = dayKey tz t2" and "p \<le> q"
  shows "aggregatePrices tz [(t1, p), (t2, q)] =
     [\<lparr>timestamp = dayKey tz t1, open_price = p, high = q, low = p, close = q, volume = 0\<rparr>]"
  using assms(2)
  by (simp add: aggregatePrices_def price_step_def Let_def assms(1) [symmetric] max_absorb2
      min_absorb1)

lemma fetchMissingDataFromAPI_ok:
  assumes "api w (a div 1000) (b div 1000) = Inr response" "ok response" "db_write_error w = None"
  shows "fst (fetchMissingDataFromAPI tz w a b s) = Inr (aggregatePrices tz (prices response))"
  using assms by (simp add: fetchMissingDataFromAPI_def saveBulkDailyPrices_def Let_def)

text \<open>
  Claim C5. The remote fetcher aggregates the samples of a response by calendar day: the
  day key of a sample is the start of the local calendar day of its timestamp (stated
  from the year 100 on), the output has exactly the day keys of the samples, in strictly
  ascending order, and the record of a day has the price of the first sample of the day
  as open, the price of the last as close, the greatest price as high, the least as low,
  and volume 0. Two samples of one calendar day with prices \<open>p \<le> q\<close>, such as 100 and 110,
  give one record with open \<open>p\<close>, high \<open>q\<close>, low \<open>p\<close>, close \<open>q\<close> and volume 0.
  \<open>fetchMissingDataFromAPI\<close> returns this aggregate when the response is ok and the store
  accepts the write.
\<close>

theorem aggregatePrices_daily:
  "(\<forall>t. - 59011459200000 \<le> t + tz \<longrightarrow> dayKey tz t = t - (t + tz) mod 86400000) \<and>
   sorted_wrt (<) (map timestamp (aggregatePrices tz ps)) \<and>
   timestamp ` set (aggregatePrices tz ps) = dayKey tz ` fst ` set ps \<and>
   (\<forall>r\<in>set (aggregatePrices tz ps).
      let day = map snd (filter (\<lambda>s. dayKey tz (fst s) = timestamp r) ps)
      in day \<noteq> [] \<and> open_price r = hd day \<and> close r = last day \<and>
         high r = Max (set day) \<and> low r = Min (set day) \<and> volume r = 0) \<and>
   (- 59011459200000 \<le> t1 + tz \<and> - 59011459200000 \<le> t2 + tz \<and>
    (t1 + tz) div 86400000 = (t2 + tz) div 86400000 \<and> p \<le> q \<longrightarrow>
      aggregatePrices tz [(t1, p), (t2, q)] =
        [\<lparr>timestamp = t1 - (t1 + tz) mod 86400000, open_price = p, high = q, low = p,
          close = q, volume = 0\<rparr>]) \<and>
   (api w (a div 1000) (b div 1000) = Inr response \<and> ok response \<and> db_write_error w = None \<longrightarrow>
      fst (fetchMissingDataFromAPI tz w a b s) = Inr (aggregatePrices tz (prices response)))"
proof (intro conjI ballI impI allI)
  show "sorted_wrt (<) (map timestamp (aggregatePrices tz ps))"
    by (rule aggregatePrices_sorted)
  show "timestamp ` set (aggregatePrices tz ps) = dayKey tz ` fst ` set ps"
    by (rule aggregatePrices_keys)
next
  fix t assume "- 59011459200000 \<le> t + tz"
  then show "dayKey tz t = t - (t + tz) mod 86400000"
    by (rule dayKey_local_midnight)
next
  fix r assume "r \<in> set (aggregatePrices tz ps)"
  then show "let day = map snd (filter (\<lambda>s. dayKey tz (fst s) = timestamp r) ps)
      in day \<noteq> [] \<and> open_price r = hd day \<and> close r = last day \<and>
         high r = Max (set day) \<and> low r = Min (set day) \<and> volume r = 0"
    unfolding Let_def by (rule aggregatePrices_member)
next
  assume h: "- 59011459200000 \<le> t1 + tz \<and> - 59011459200000 \<le> t2 + tz \<and>
    (t1 + tz) div 86400000 = (t2 + tz) div 86400000 \<and> p \<le> q"
  then have k1: "dayKey tz t1 = t1 - (t1 + tz) mod 86400000"
    and k2: "dayKey tz t2 = t2 - (t2 + tz) mod 86400000"
    by (simp_all add: dayKey_local_midnight)
  from h have "t1 - (t1 + tz) mod 86400000 = t2 - (t2 + tz) mod 86400000"
    by (intro same_day_same_midnight) simp
  with k1 k2 have "dayKey tz t1 = dayKey tz t2"
    by simp
  moreover from h have "p \<le> q"
    by simp
  ultimately have "aggregatePrices tz [(t1, p), (t2, q)] =
     [\<lparr>timestamp = dayKey tz t1, open_price = p, high = q, low = p, close = q, volume = 0\<rparr>]"
    by (rule aggregatePrices_same_day)
  then show "aggregatePrices tz [(t1, p), (t2, q)] =
        [\<lparr>timestamp = t1 - (t1 + tz) mod 86400000, open_price = p, high = q, low = p,
          close = q, volume = 0\<rparr>]"
    by (simp only: k1)
next
  assume "api w (a div 1000) (b div 1000) = Inr response \<and> ok response \<and> db_write_error w = None"
  then show "fst (fetchMissingDataFromAPI tz w a b s) = Inr (aggregatePrices tz (prices response))"
    by (simp add: fetchMissingDataFromAPI_ok)
qed

text \<open>
  One hour east of UTC: a sample of 2023-12-31 23:01:00 and one of 2024-01-01 00:02:00.5
  (UTC) are samples of the local day 2024-01-01, which starts at 2023-12-31 23:00:00 (UTC).
\<close>

theorem aggregatePrices_daily_witness:
  "dayKey 3600000 1704067320500 = 1704063600000 \<and>
   aggregatePrices 3600000 [(1704063660000, 100 :: real), (1704067320500, 110)] =
     [candle 1704063600000 100 110 100 110 0] \<and>
   fst (fetchMissingDataFromAPI 3600000
          (example_world 1704070800000
             (Inr \<lparr>status = 200, prices = [(1704063660000, 100), (1704067320500, 110)]\<rparr>))
          1704067200000 1704070800000 fresh_state)
     = Inr [candle 1704063600000 100 110 100 110 0]"
proof -
  note inst = aggregatePrices_daily [of 3600000 "[(1704063660000, 100 :: real), (1704067320500, 110)]"
      1704063660000 1704067320500 100 110
      "example_world 1704070800000
         (Inr \<lparr>status = 200, prices = [(1704063660000, 100), (1704067320500, 110)]\<rparr>)"
      1704067200000 1704070800000
      "\<lparr>status = 200, prices = [(1704063660000, 100), (1704067320500, 110)]\<rparr>" fresh_state]
  have "- 59011459200000 \<le> 1704067320500 + (3600000 :: int) \<longrightarrow>
      dayKey 3600000 1704067320500 = 1704067320500 - (1704067320500 + 3600000) mod 86400000"
    by (rule inst [THEN conjunct1, THEN spec])
  then have k: "dayKey 3600000 1704067320500 = 1704063600000"
    by simp
  have h: "- 59011459200000 \<le> 1704063660000 + (3600000 :: int) \<and>
      - 59011459200000 \<le> 1704067320500 + (3600000 :: int) \<and>
      (1704063660000 + 3600000) div 86400000 = (1704067320500 + 3600000) div (86400000 :: int) \<and>
      (100 :: real) \<le> 110"
    by simp
  have "aggregatePrices 3600000 [(1704063660000, 100 :: real), (1704067320500, 110)] =
        [\<lparr>timestamp = 1704063660000 - (1704063660000 + 3600000) mod 86400000, open_price = 100,
          high = 110, low = 100, close = 110, volume = 0\<rparr>]"
    by (rule inst [THEN conjunct2, THEN conjunct2, THEN conjunct2, THEN conjunct2,
          THEN conjunct1, rule_format, OF h])
  then have a: "aggregatePrices 3600000 [(1704063660000, 100 :: real), (1704067320500, 110)] =
     [candle 1704063600000 100 110 100 110 0]"
    by (simp add: candle_def)
  have w: "api (example_world 1704070800000
         (Inr \<lparr>status = 200, prices = [(1704063660000, 100), (1704067320500, 110)]\<rparr>))
         (1704067200000 div 1000) (1704070800000 div 1000)
       = Inr \<lparr>status = 200, prices = [(1704063660000, 100), (1704067320500, 110)]\<rparr> \<and>
     ok \<lparr>status = 200, prices = [(1704063660000, 100 :: real), (1704067320500, 110)]\<rparr> \<and>
     db_write_error (example_world 1704070800000
         (Inr \<lparr>status = 200, prices = [(1704063660000, 100), (1704067320500, 110)]\<rparr>)) = None"
    by (simp add: example_world_def ok_def)
  have "fst (fetchMissingDataFromAPI 3600000
          (example_world 1704070800000
             (Inr \<lparr>status = 200, prices = [(1704063660000, 100), (1704067320500, 110)]\<rparr>))
          1704067200000 1704070800000 fresh_state)
     = Inr (aggregatePrices 3600000 (prices
         \<lparr>status = 200, prices = [(1704063660000, 100 :: real), (1704067320500, 110)]\<rparr>))"
    by (rule inst [THEN conjunct2, THEN conjunct2, THEN conjunct2, THEN conjunct2,
          THEN conjunct2, rule_format, OF w])
  with a k show ?thesis
    by simp
qed

section \<open>Properties of the reconciliation\<close>

subsection \<open>Loading twice, failing fetches\<close>

lemma loadCSVData_again:
  "loadCSVData tz w s = (x, s1) \<Longrightarrow> loadCSVData tz w s1 = (x, s1)"
  by (auto simp: loadCSVData_def Let_def split: option.splits sum.splits)

lemma loadCSVData_db:
  "loadCSVData tz w s = (x, s1) \<Longrightarrow> db s1 = db s"
  by (auto simp: loadCSVData_def Let_def split: option.splits sum.splits)

lemma fetchMissingDataFromAPI_Inl:
  "fetchMissingDataFromAPI tz w a b s = (Inl e, s2) \<Longrightarrow> s2 = s"
  by (auto simp: fetchMissingDataFromAPI_def saveBulkDailyPrices_def Let_def
      split: option.splits sum.splits if_splits)

lemma fetchMissingDataFromAPI_not_ok:
  "api w (a div 1000) (b div 1000) = Inr response \<Longrightarrow> \<not> ok response \<Longrightarrow>
   fetchMissingDataFromAPI tz w a b s = (Inl (ApiError (status response)), s)"
  by (simp add: fetchMissingDataFromAPI_def Let_def)

lemma fetchMissingDataFromAPI_Inr:
  assumes "fetchMissingDataFromAPI tz w a b s = (Inr newData, s2)"
  shows "sorted_wrt (<) (map timestamp newData)"
  using assms
  by (auto simp: fetchMissingDataFromAPI_def Let_def aggregatePrices_sorted
      split: sum.splits if_splits prod.splits)

lemma fetchMissingDataFromAPI_empty:
  assumes none: "\<forall>a b response. api w a b = Inr response \<longrightarrow> prices response = []"
    and fetch: "fetchMissingDataFromAPI tz w a b s = (x, s2)"
  shows "s2 = s"
proof (cases x)
  case (Inl e)
  with fetch show ?thesis by (simp add: fetchMissingDataFromAPI_Inl)
next
  case (Inr newData)
  from fetch Inr have "\<exists>response. api w (a div 1000) (b div 1000) = Inr response \<and>
      saveBulkDailyPrices w (aggregatePrices tz (prices response)) s = (Inr (), s2)"
    by (auto simp: fetchMissingDataFromAPI_def Let_def split: sum.splits if_splits prod.splits)
  then obtain response where api: "api w (a div 1000) (b div 1000) = Inr response"
    and s2: "saveBulkDailyPrices w (aggregatePrices tz (prices response)) s = (Inr (), s2)"
    by blast
  from none api have "prices response = []" by blast
  with s2 show ?thesis
    by (auto simp: saveBulkDailyPrices_def aggregatePrices_def split: option.splits)
qed

lemma catch_block_loaded:
  "loadCSVData tz w s1 = (Inr csv, s1) \<Longrightarrow>
   catch_block tz w e md s1 = (\<lparr>data = csv, source = CSV_ONLY, error = Some e, missingDays = md\<rparr>, s1)"
  by (simp add: catch_block_def)

lemma fetchCombinedData_again:
  "loadCSVData tz w s = (x, s1) \<Longrightarrow> fetchCombinedData tz w f s1 = fetchCombinedData tz w f s"
  by (simp add: fetchCombinedData_def loadCSVData_again)

text \<open>The \<^verbatim>\<open>try\<close> block once the archive, not empty, and the store have been read.\<close>

lemma fetchCombinedData_loaded:
  assumes load: "loadCSVData tz w s = (Inr csv, s1)"
    and read: "getAllDailyPrices w s1 = Inr cachedData"
    and ne: "csv \<noteq> []"
  shows "fetchCombinedData tz w forceFetch s =
     (if daysSinceLastData (now w) csv cachedData > 0 \<or> forceFetch then
        (case fetchMissingDataFromAPI tz w (lastTimestamp csv cachedData + oneDayMs) (now w) s1 of
           (Inl e, s2) \<Rightarrow>
             (\<lparr>data = csv, source = CSV_ONLY, error = Some e,
               missingDays = daysSinceLastData (now w) csv cachedData\<rparr>, s1)
         | (Inr newData, s2) \<Rightarrow>
             if newData \<noteq> [] then
               (\<lparr>data = mergeData (mergeData csv cachedData) newData, source = LIVE_API,
                 error = None, missingDays = 0\<rparr>, s2)
             else
               (\<lparr>data = mergeData csv cachedData, source = FETCHING, error = None,
                 missingDays = daysSinceLastData (now w) csv cachedData\<rparr>, s2))
      else
        (\<lparr>data = mergeData csv cachedData,
          source = (if length cachedData > length csv then CSV_AND_CACHE else CSV_ONLY),
          error = None, missingDays = daysSinceLastData (now w) csv cachedData\<rparr>, s1))"
proof -
  have again: "loadCSVData tz w s1 = (Inr csv, s1)"
    using load by (rule loadCSVData_again)
  have failed: "catch_block tz w e md s2 =
      (\<lparr>data = csv, source = CSV_ONLY, error = Some e, missingDays = md\<rparr>, s1)"
    if "fetchMissingDataFromAPI tz w a b s1 = (Inl e, s2)" for a b e s2 md
    using fetchMissingDataFromAPI_Inl [OF that] again by (simp add: catch_block_loaded)
  show ?thesis
    by (auto simp: fetchCombinedData_def load read ne Let_def failed split: prod.splits sum.splits)
qed

lemma fetchCombinedData_data_cases:
  assumes load: "loadCSVData tz w s = (Inr csv, s1)"
    and read: "getAllDailyPrices w s1 = Inr cachedData"
    and ne: "csv \<noteq> []"
  obtains
    (merged) "error (fst (fetchCombinedData tz w forceFetch s)) = None"
      "data (fst (fetchCombinedData tz w forceFetch s)) = mergeData csv cachedData"
  | (fetched) newData where "error (fst (fetchCombinedData tz w forceFetch s)) = None"
      "sorted_wrt (<) (map timestamp newData)"
      "data (fst (fetchCombinedData tz w forceFetch s)) = mergeData (mergeData csv cachedData) newData"
  | (failed) "error (fst (fetchCombinedData tz w forceFetch s)) \<noteq> None"
      "data (fst (fetchCombinedData tz w forceFetch s)) = csv"
proof (cases "daysSinceLastData (now w) csv cachedData > 0 \<or> forceFetch")
  case False
  then show ?thesis
    by (intro merged) (simp_all add: fetchCombinedData_loaded [OF load read ne])
next
  case True
  obtain x s2 where f: "fetchMissingDataFromAPI tz w (lastTimestamp csv cachedData + oneDayMs) (now w) s1 = (x, s2)"
    by (cases "fetchMissingDataFromAPI tz w (lastTimestamp csv cachedData + oneDayMs) (now w) s1")
  show ?thesis
  proof (cases x)
    case (Inl e)
    with True f show ?thesis
      by (intro failed) (simp_all add: fetchCombinedData_loaded [OF load read ne])
  next
    case (Inr newData)
    with f have sorted: "sorted_wrt (<) (map timestamp newData)"
      by (simp add: fetchMissingDataFromAPI_Inr)
    show ?thesis
    proof (cases "newData = []")
      case True
      with \<open>daysSinceLastData (now w) csv cachedData > 0 \<or> forceFetch\<close> f Inr show ?thesis
        by (intro merged) (simp_all add: fetchCombinedData_loaded [OF load read ne])
    next
      case False
      with \<open>daysSinceLastData (now w) csv cachedData > 0 \<or> forceFetch\<close> f Inr show ?thesis
        by (intro fetched [OF _ sorted]) (simp_all add: fetchCombinedData_loaded [OF load read ne])
    qed
  qed
qed

lemma fetchCombinedData_state:
  assumes none: "\<forall>a b response. api w a b = Inr response \<longrightarrow> prices response = []"
    and load: "loadCSVData tz w s = (x, s1)"
  shows "snd (fetchCombinedData tz w forceFetch s) = s1"
proof -
  have again: "loadCSVData tz w s1 = (x, s1)"
    using load by (rule loadCSVData_again)
  have c: "snd (catch_block tz w e md s1) = s1" for e md
    using again by (cases x) (simp_all add: catch_block_def)
  have f: "fetchMissingDataFromAPI tz w a b s1 = (y, s2) \<Longrightarrow> s2 = s1" for a b y s2
    using none by (rule fetchMissingDataFromAPI_empty)
  show ?thesis
    by (auto dest!: f simp: fetchCombinedData_def load c Let_def split: sum.splits prod.splits)
qed

lemma fetchCombinedData_twice:
  assumes none: "\<forall>a b response. api w a b = Inr response \<longrightarrow> prices response = []"
  shows "fetchCombinedData tz w forceFetch (snd (fetchCombinedData tz w forceFetch s))
           = fetchCombinedData tz w forceFetch s"
proof -
  obtain x s1 where load: "loadCSVData tz w s = (x, s1)"
    by (cases "loadCSVData tz w s")
  have "snd (fetchCombinedData tz w forceFetch s) = s1"
    using none load by (rule fetchCombinedData_state)
  then show ?thesis
    by (simp add: fetchCombinedData_again [OF load])
qed

subsection \<open>The gap and the merge\<close>

lemma lastTimestamp_Max:
  "lastTimestamp csv cachedData = Max (insert (timestamp (last csv)) (timestamp ` set cachedData))"
proof (cases "cachedData = []")
  case True
  then show ?thesis by (simp add: lastTimestamp_def)
next
  case False
  then have "Max (insert (timestamp (last csv)) (timestamp ` set cachedData))
      = max (timestamp (last csv)) (Max (timestamp ` set cachedData))"
    by (intro Max_insert) simp_all
  with False show ?thesis by (simp add: lastTimestamp_def)
qed

lemma daysSinceLastData_floor:
  "daysSinceLastData t csv cachedData
     = \<lfloor>real_of_int (t - lastTimestamp csv cachedData) / real_of_int oneDayMs\<rfloor>"
  by (simp only: daysSinceLastData_def floor_divide_of_int_eq)

lemma daysSinceLastData_example:
  "t = lastTimestamp csv cachedData + 3 * oneDayMs + 2 * msPerHour \<Longrightarrow>
   daysSinceLastData t csv cachedData = 3"
  by (simp add: daysSinceLastData_def oneDayMs_def msPerHour_def)

lemma fetchCombinedData_missingDays_result:
  assumes load: "loadCSVData tz w s = (Inr csv, s1)"
    and read: "getAllDailyPrices w s1 = Inr cachedData"
    and ne: "csv \<noteq> []"
  shows "missingDays (fst (fetchCombinedData tz w forceFetch s)) =
     (if source (fst (fetchCombinedData tz w forceFetch s)) = LIVE_API then 0
      else daysSinceLastData (now w) csv cachedData)"
  unfolding fetchCombinedData_loaded [OF load read ne]
  by (simp split: prod.splits sum.splits)

lemma set_mergeData:
  "set (mergeData a b) = set a \<union> {d \<in> set b. timestamp d \<notin> timestamp ` set a}"
  by (auto simp: mergeData_def)

lemma sorted_mergeData:
  assumes "distinct (map timestamp a)" and "distinct (map timestamp b)"
  shows "sorted_wrt (<) (map timestamp (mergeData a b))"
  unfolding mergeData_def
proof (rule strict_sorted_sort_key)
  have "distinct (map timestamp (filter (\<lambda>d. timestamp d \<notin> set (map timestamp a)) b))"
    using assms(2) by (rule distinct_map_filter)
  then show "distinct (map timestamp (a @ filter (\<lambda>d. timestamp d \<notin> set (map timestamp a)) b))"
    using assms(1) by (auto simp: image_iff)
qed

lemma mergeData_precedence:
  "x \<in> set (mergeData a b) \<Longrightarrow> timestamp x \<in> timestamp ` set a \<Longrightarrow> x \<in> set a"
  by (auto simp: set_mergeData)

lemma fetchCombinedData_source_no_fetch:
  assumes load: "loadCSVData tz w s = (Inr csv, s1)"
    and read: "getAllDailyPrices w s1 = Inr cachedData"
    and ne: "csv \<noteq> []"
    and "\<not> (daysSinceLastData (now w) csv cachedData > 0 \<or> forceFetch)"
  shows "source (fst (fetchCombinedData tz w forceFetch s))
           = (if length cachedData > length csv then CSV_AND_CACHE else CSV_ONLY)"
  using assms(4) by (simp add: fetchCombinedData_loaded [OF load read ne])

subsection \<open>The examples, evaluated\<close>

lemma example_archive_ne: "example_archive \<noteq> []"
  by (simp add: example_archive_def)

lemma example_load:
  "loadCSVData 0 (example_world t response) example_state = (Inr example_archive, example_state)"
  by (simp add: loadCSVData_def example_state_def)

lemma example_read:
  "getAllDailyPrices (example_world t response) example_state = Inr example_store"
  by (simp add: getAllDailyPrices_def example_world_def example_state_def)

lemma example_lastTimestamp: "lastTimestamp example_archive example_store = 1704153600000"
  by (simp add: lastTimestamp_def example_archive_def example_store_def candle_def)

lemma example_merge:
  "mergeData example_archive example_store =
     [candle 1704067200000 90 101 89 100 5, candle 1704153600000 100 106 99 105 0]"
  by (simp add: mergeData_def example_archive_def example_store_def candle_def)

lemma example_fetch_nothing:
  "fetchCombinedData 0 (example_world 1704420000000 (Inr \<lparr>status = 200, prices = []\<rparr>)) False
      example_state
     = (\<lparr>data = mergeData example_archive example_store, source = FETCHING, error = None,
         missingDays = 3\<rparr>, example_state)"
  unfolding fetchCombinedData_loaded [OF example_load example_read example_archive_ne]
  by (simp add: daysSinceLastData_def example_lastTimestamp fetchMissingDataFromAPI_def
      saveBulkDailyPrices_def aggregatePrices_def ok_def example_world_def oneDayMs_def
      example_state_def)

lemma example_api_error:
  "fetchCombinedData 0 (example_world 1704326400000 (Inr \<lparr>status = 500, prices = []\<rparr>)) False
      example_state
     = (\<lparr>data = example_archive, source = CSV_ONLY, error = Some (ApiError 500),
         missingDays = 2\<rparr>, example_state)"
  unfolding fetchCombinedData_loaded [OF example_load example_read example_archive_ne]
  by (simp add: daysSinceLastData_def example_lastTimestamp fetchMissingDataFromAPI_def
      ok_def example_world_def oneDayMs_def)

lemma empty_load:
  "loadCSVData 0 (example_world t response) fresh_state
     = (Inr [], \<lparr>csvData = Some [], loadingPromise = Some (Inr []), db = []\<rparr>)"
  by (simp add: loadCSVData_def fresh_state_def example_world_def parseCSV_def)

lemma empty_read:
  "getAllDailyPrices (example_world t response)
      \<lparr>csvData = Some [], loadingPromise = Some (Inr []), db = []\<rparr> = Inr []"
  by (simp add: getAllDailyPrices_def example_world_def)

subsection \<open>A failing fetch\<close>

text \<open>
  Claim C1, as amended. When the archive, not empty, and the store have been read, the
  fetch is attempted and the API answers with a status that is not ok, \<open>fetchCombinedData\<close>
  returns the archive series alone, with source \<open>CSV_ONLY\<close>, the \<open>ApiError\<close> as error and
  the computed gap as \<open>missingDays\<close>; the store is not written.
\<close>

theorem fetchCombinedData_api_error:
  assumes load: "loadCSVData tz w s = (Inr csv, s1)"
    and read: "getAllDailyPrices w s1 = Inr cachedData"
    and ne: "csv \<noteq> []"
    and needed: "daysSinceLastData (now w) csv cachedData > 0 \<or> forceFetch"
    and api: "api w ((lastTimestamp csv cachedData + oneDayMs) div 1000) (now w div 1000)
                = Inr response"
    and status: "\<not> ok response"
  shows "fetchCombinedData tz w forceFetch s =
           (\<lparr>data = csv, source = CSV_ONLY, error = Some (ApiError (status response)),
             missingDays = daysSinceLastData (now w) csv cachedData\<rparr>, s1) \<and>
         db s1 = db s"
proof
  show "fetchCombinedData tz w forceFetch s =
           (\<lparr>data = csv, source = CSV_ONLY, error = Some (ApiError (status response)),
             missingDays = daysSinceLastData (now w) csv cachedData\<rparr>, s1)"
    unfolding fetchCombinedData_loaded [OF load read ne]
    using needed by (simp add: fetchMissingDataFromAPI_not_ok [OF api status])
  show "db s1 = db s"
    using load by (rule loadCSVData_db)
qed

theorem fetchCombinedData_api_error_witness:
  "fetchCombinedData 0 (example_world 1704326400000 (Inr \<lparr>status = 500, prices = []\<rparr>)) False
      example_state
     = (\<lparr>data = example_archive, source = CSV_ONLY, error = Some (ApiError 500),
         missingDays = 2\<rparr>, example_state)"
proof -
  have days: "daysSinceLastData 1704326400000 example_archive example_store = 2"
    by (simp add: daysSinceLastData_def example_lastTimestamp oneDayMs_def)
  have "fetchCombinedData 0 (example_world 1704326400000 (Inr \<lparr>status = 500, prices = []\<rparr>)) False
      example_state =
     (\<lparr>data = example_archive, source = CSV_ONLY,
       error = Some (ApiError (status (\<lparr>status = 500, prices = []\<rparr> :: real http_response))),
       missingDays = daysSinceLastData
         (now (example_world 1704326400000 (Inr \<lparr>status = 500, prices = []\<rparr>)))
         example_archive example_store\<rparr>, example_state) \<and> db example_state = db example_state"
    by (rule fetchCombinedData_api_error [OF example_load example_read example_archive_ne])
      (simp_all add: example_world_def days ok_def)
  then show ?thesis
    by (simp add: example_world_def days)
qed

text \<open>
  Claim C1 as stated fails: the archive ends at 2024-01-01, the store holds 2024-01-02,
  it is 2024-01-04 and the API answers 500. The fetch raises \<open>ApiError 500\<close>; the returned
  series is not the merged one, and the source is \<open>CSV_ONLY\<close>.
\<close>

theorem fetchCombinedData_api_error_counterexample:
  "fetchMissingDataFromAPI 0 (example_world 1704326400000 (Inr \<lparr>status = 500, prices = []\<rparr>))
      (lastTimestamp example_archive example_store + oneDayMs) 1704326400000 example_state
     = (Inl (ApiError 500), example_state) \<and>
   data (fst (fetchCombinedData 0
      (example_world 1704326400000 (Inr \<lparr>status = 500, prices = []\<rparr>)) False example_state))
     \<noteq> mergeData example_archive example_store \<and>
   source (fst (fetchCombinedData 0
      (example_world 1704326400000 (Inr \<lparr>status = 500, prices = []\<rparr>)) False example_state))
     = CSV_ONLY"
proof (intro conjI)
  show "fetchMissingDataFromAPI 0 (example_world 1704326400000 (Inr \<lparr>status = 500, prices = []\<rparr>))
      (lastTimestamp example_archive example_store + oneDayMs) 1704326400000 example_state
     = (Inl (ApiError 500), example_state)"
    by (simp add: fetchMissingDataFromAPI_def ok_def example_world_def)
  show "data (fst (fetchCombinedData 0
      (example_world 1704326400000 (Inr \<lparr>status = 500, prices = []\<rparr>)) False example_state))
     \<noteq> mergeData example_archive example_store"
    by (simp add: example_api_error example_merge) (simp add: example_archive_def)
  show "source (fst (fetchCombinedData 0
      (example_world 1704326400000 (Inr \<lparr>status = 500, prices = []\<rparr>)) False example_state))
     = CSV_ONLY"
    by (simp add: example_api_error)
qed

subsection \<open>The source when no fetch is needed\<close>

text \<open>
  Claim C2 at a failing input: the archive ends at 2024-01-01, the store holds the one
  record of 2024-01-02, it is 05:00 on 2024-01-02 and no fetch is forced. The gap is 0
  and the series has the store's record, but the source is \<open>CSV_ONLY\<close>: line 330 compares
  the number of store records with the number of archive records.
\<close>

theorem fetchCombinedData_cache_not_reported:
  "fetchCombinedData 0 (example_world 1704171600000 (Inr \<lparr>status = 200, prices = []\<rparr>)) False
      example_state
     = (\<lparr>data = [candle 1704067200000 90 101 89 100 5, candle 1704153600000 100 106 99 105 0],
         source = CSV_ONLY, error = None, missingDays = 0\<rparr>, example_state)"
proof -
  have days: "daysSinceLastData 1704171600000 example_archive example_store = 0"
    by (simp add: daysSinceLastData_def example_lastTimestamp oneDayMs_def)
  have len: "\<not> length example_store > length example_archive"
    by (simp add: example_archive_def example_store_def)
  have now: "now (example_world 1704171600000 (Inr \<lparr>status = 200, prices = []\<rparr>)) = 1704171600000"
    by (simp add: example_world_def)
  show ?thesis
    unfolding fetchCombinedData_loaded [OF example_load example_read example_archive_ne]
    by (simp add: now days len example_merge)
qed

subsection \<open>The merged series\<close>

text \<open>
  Claim C3. The archive is not empty and has unique timestamps; the store, keyed by
  timestamp, has unique timestamps too. Then the series that \<open>fetchCombinedData\<close>
  returns is strictly ascending by timestamp when the call returns without an error
  (and in every case when the archive is ascending, as \<open>loadCSVData\<close> makes it); it
  contains every archive record; a record of it whose timestamp the archive has is the
  archive's record, so a store record is in it only if its timestamp is absent from the
  archive; without an error it contains every store record whose timestamp the archive
  lacks. When the API has no samples, a second call in the state that the first call
  left returns the same series.
\<close>

theorem fetchCombinedData_series:
  assumes load: "loadCSVData tz w s = (Inr csv, s1)"
    and read: "getAllDailyPrices w s1 = Inr cachedData"
    and ne: "csv \<noteq> []"
    and dcsv: "distinct (map timestamp csv)"
    and dcached: "distinct (map timestamp cachedData)"
  shows "(error (fst (fetchCombinedData tz w forceFetch s)) = None \<longrightarrow>
            sorted_wrt (<) (map timestamp (data (fst (fetchCombinedData tz w forceFetch s))))) \<and>
         (sorted_wrt (<) (map timestamp csv) \<longrightarrow>
            sorted_wrt (<) (map timestamp (data (fst (fetchCombinedData tz w forceFetch s))))) \<and>
         set csv \<subseteq> set (data (fst (fetchCombinedData tz w forceFetch s))) \<and>
         (\<forall>x\<in>set (data (fst (fetchCombinedData tz w forceFetch s))).
            timestamp x \<in> timestamp ` set csv \<longrightarrow> x \<in> set csv) \<and>
         (error (fst (fetchCombinedData tz w forceFetch s)) = None \<longrightarrow>
            (\<forall>c\<in>set cachedData. timestamp c \<notin> timestamp ` set csv \<longrightarrow>
               c \<in> set (data (fst (fetchCombinedData tz w forceFetch s))))) \<and>
         ((\<forall>a b response. api w a b = Inr response \<longrightarrow> prices response = []) \<longrightarrow>
            data (fst (fetchCombinedData tz w forceFetch (snd (fetchCombinedData tz w forceFetch s))))
              = data (fst (fetchCombinedData tz w forceFetch s)))"
proof -
  let ?r = "fst (fetchCombinedData tz w forceFetch s)"
  have m: "sorted_wrt (<) (map timestamp (mergeData csv cachedData))"
    using dcsv dcached by (rule sorted_mergeData)
  then have dm: "distinct (map timestamp (mergeData csv cachedData))"
    by (rule strict_sorted_distinct)
  have twice: "(\<forall>a b response. api w a b = Inr response \<longrightarrow> prices response = []) \<longrightarrow>
      data (fst (fetchCombinedData tz w forceFetch (snd (fetchCombinedData tz w forceFetch s)))) = data ?r"
    by (simp add: fetchCombinedData_twice)
  from load read ne show ?thesis
  proof (cases rule: fetchCombinedData_data_cases [where forceFetch = forceFetch])
    case merged
    then show ?thesis
      using m twice by (auto simp: set_mergeData)
  next
    case (fetched newData)
    from fetched(2) have "distinct (map timestamp newData)"
      by (rule strict_sorted_distinct)
    with dm have "sorted_wrt (<) (map timestamp (mergeData (mergeData csv cachedData) newData))"
      by (rule sorted_mergeData)
    then show ?thesis
      using fetched(1,3) twice by (auto simp: set_mergeData)
  next
    case failed
    then show ?thesis
      using twice by auto
  qed
qed

theorem fetchCombinedData_series_witness:
  "sorted_wrt (<) (map timestamp (data (fst (fetchCombinedData 0
       (example_world 1704420000000 (Inr \<lparr>status = 200, prices = []\<rparr>)) False example_state)))) \<and>
   data (fst (fetchCombinedData 0
       (example_world 1704420000000 (Inr \<lparr>status = 200, prices = []\<rparr>)) False example_state))
     = [candle 1704067200000 90 101 89 100 5, candle 1704153600000 100 106 99 105 0] \<and>
   data (fst (fetchCombinedData 0
       (example_world 1704420000000 (Inr \<lparr>status = 200, prices = []\<rparr>)) False
       (snd (fetchCombinedData 0
          (example_world 1704420000000 (Inr \<lparr>status = 200, prices = []\<rparr>)) False example_state))))
     = [candle 1704067200000 90 101 89 100 5, candle 1704153600000 100 106 99 105 0]"
proof -
  have d1: "distinct (map timestamp example_archive)"
    by (simp add: example_archive_def)
  have d2: "distinct (map timestamp example_store)"
    by (simp add: example_store_def)
  have none: "\<forall>a b response.
      api (example_world 1704420000000 (Inr \<lparr>status = 200, prices = []\<rparr>)) a b = Inr response
        \<longrightarrow> prices response = []"
    by (auto simp: example_world_def)
  from fetchCombinedData_series
      [OF example_load [of 1704420000000 "Inr \<lparr>status = 200, prices = []\<rparr>"]
        example_read example_archive_ne d1 d2, where forceFetch = False] none
  show ?thesis
    by (simp add: example_fetch_nothing example_merge candle_def)
qed

subsection \<open>The freshness gap\<close>

text \<open>
  Claim C4. When the archive, not empty, and the store have been read, the last known
  timestamp is the greatest of the last archive timestamp and the store's timestamps
  (the last archive timestamp when the store is empty), the gap is
  \<open>\<lfloor>(now - lastTimestamp) / oneDayMs\<rfloor>\<close>, and \<open>fetchCombinedData\<close> returns this gap as
  \<open>missingDays\<close>, unless the fetch gave a record (source \<open>LIVE_API\<close>), which sets it to 0.
  With \<open>now\<close> 3 days and 2 hours after the last known timestamp, the gap is 3.
\<close>

theorem fetchCombinedData_missingDays:
  assumes load: "loadCSVData tz w s = (Inr csv, s1)"
    and read: "getAllDailyPrices w s1 = Inr cachedData"
    and ne: "csv \<noteq> []"
  shows "lastTimestamp csv cachedData
           = Max (insert (timestamp (last csv)) (timestamp ` set cachedData)) \<and>
         daysSinceLastData (now w) csv cachedData
           = \<lfloor>real_of_int (now w - lastTimestamp csv cachedData) / real_of_int oneDayMs\<rfloor> \<and>
         missingDays (fst (fetchCombinedData tz w forceFetch s)) =
           (if source (fst (fetchCombinedData tz w forceFetch s)) = LIVE_API then 0
            else daysSinceLastData (now w) csv cachedData) \<and>
         (now w = lastTimestamp csv cachedData + 3 * oneDayMs + 2 * msPerHour \<longrightarrow>
            daysSinceLastData (now w) csv cachedData = 3)"
  using lastTimestamp_Max daysSinceLastData_floor
    fetchCombinedData_missingDays_result [OF load read ne] daysSinceLastData_example
  by blast

theorem fetchCombinedData_missingDays_witness:
  "now (example_world 1704420000000 (Inr \<lparr>status = 200, prices = []\<rparr>))
     = lastTimestamp example_archive example_store + 3 * oneDayMs + 2 * msPerHour \<and>
   missingDays (fst (fetchCombinedData 0
       (example_world 1704420000000 (Inr \<lparr>status = 200, prices = []\<rparr>)) False example_state)) = 3"
proof -
  have t: "now (example_world 1704420000000 (Inr \<lparr>status = 200, prices = []\<rparr>))
     = lastTimestamp example_archive example_store + 3 * oneDayMs + 2 * msPerHour"
    by (simp add: example_world_def example_lastTimestamp oneDayMs_def msPerHour_def)
  from fetchCombinedData_missingDays
    [OF example_load [of 1704420000000 "Inr \<lparr>status = 200, prices = []\<rparr>"]
      example_read example_archive_ne, where forceFetch = False] t
  show ?thesis
    by (simp add: example_fetch_nothing)
qed

subsection \<open>No data at all\<close>

text \<open>
  An empty archive: line 282 reads the last record of the empty array, the \<^verbatim>\<open>TypeError\<close>
  goes to the \<^verbatim>\<open>catch\<close> block, and the archive loads again there, so that the result has
  source \<open>CSV_ONLY\<close>. When the archive does not load at all, the same block returns
  the empty series with source \<open>ERROR\<close>.
\<close>

lemma fetchCombinedData_empty_archive:
  assumes load: "loadCSVData tz w s = (Inr [], s1)"
    and read: "getAllDailyPrices w s1 = Inr cachedData"
  shows "fetchCombinedData tz w forceFetch s =
           (\<lparr>data = [], source = CSV_ONLY, error = Some TypeError, missingDays = 0\<rparr>, s1)"
proof -
  have "loadCSVData tz w s1 = (Inr [], s1)"
    using load by (rule loadCSVData_again)
  then show ?thesis
    by (simp add: fetchCombinedData_def load read catch_block_loaded)
qed

lemma fetchCombinedData_load_error:
  assumes load: "loadCSVData tz w s = (Inl e, s1)"
  shows "fetchCombinedData tz w forceFetch s =
           (\<lparr>data = [], source = ERROR, error = Some e, missingDays = 0\<rparr>, s1)"
proof -
  have "loadCSVData tz w s1 = (Inl e, s1)"
    using load by (rule loadCSVData_again)
  then show ?thesis
    by (simp add: fetchCombinedData_def load catch_block_def)
qed

text \<open>
  Claim C8 at a failing input: a new process whose archive file has no data line and
  whose store is empty. The archive loads as the empty series, and \<open>fetchCombinedData\<close>
  returns the empty series with \<open>missingDays\<close> 0, but with source \<open>CSV_ONLY\<close> and the
  \<open>TypeError\<close> of line 282 as error, where the claim has source \<open>ERROR\<close> or a status of
  its own for no data.
\<close>

theorem fetchCombinedData_no_data_example:
  "db fresh_state = [] \<and>
   fst (loadCSVData 0 (example_world 1704171600000 (Inr \<lparr>status = 200, prices = []\<rparr>)) fresh_state)
     = Inr [] \<and>
   fetchCombinedData 0 (example_world 1704171600000 (Inr \<lparr>status = 200, prices = []\<rparr>)) False
      fresh_state
     = (\<lparr>data = [], source = CSV_ONLY, error = Some TypeError, missingDays = 0\<rparr>,
        \<lparr>csvData = Some [], loadingPromise = Some (Inr []), db = []\<rparr>)"
proof (intro conjI)
  show "db fresh_state = []"
    by (simp add: fresh_state_def)
  show "fst (loadCSVData 0 (example_world 1704171600000 (Inr \<lparr>status = 200, prices = []\<rparr>)) fresh_state)
     = Inr []"
    by (simp add: empty_load)
  show "fetchCombinedData 0 (example_world 1704171600000 (Inr \<lparr>status = 200, prices = []\<rparr>)) False
      fresh_state
     = (\<lparr>data = [], source = CSV_ONLY, error = Some TypeError, missingDays = 0\<rparr>,
        \<lparr>csvData = Some [], loadingPromise = Some (Inr []), db = []\<rparr>)"
    by (rule fetchCombinedData_empty_archive [OF empty_load empty_read])
qed

section \<open>Totality of the aggregator\<close>

text \<open>
  Claim C10. For every interval type, \<open>aggregateData\<close> applied to an absent
  (\<^verbatim>\<open>null\<close> or \<^verbatim>\<open>undefined\<close>) or empty series returns the empty series; the function has
  no error result at all.
\<close>

theorem aggregateData_absent_or_empty:
  "aggregateData tz None intervalType = [] \<and> aggregateData tz (Some []) intervalType = []"
  by (simp add: aggregateData_def)

end
